theory Spec2Isabelle
  imports Main "HOL-Library.Multiset"
begin

section \<open>The contact editor's merge workflow (contactEditor.js)\<close>

text \<open>
  The development embeds four functions of \<^verbatim>\<open>src/app/contact/factories/contactEditor.js\<close>:
  \<^verbatim>\<open>summarizeMergeResults\<close>, \<^verbatim>\<open>updateAndRemove\<close>, \<^verbatim>\<open>mergeProgressAnnouncer\<close> and
  \<^verbatim>\<open>merge\<close>. Promises are modelled by their settlement, a value of a sum type
  (\<open>Inl\<close> the rejection reason, \<open>Inr\<close> the resolved value); the notifications sent to
  \<^verbatim>\<open>$rootScope\<close>, the loader modal, the activity tracker and the event manager are
  collected in a trace of events; the calls made to the \<^verbatim>\<open>Contact\<close> service are collected
  in a log of calls.
\<close>

subsection \<open>Data\<close>

text \<open>A contact record; its payload is opaque to the editor.\<close>

record contact =
  contact_ID :: string
  contact_vCard :: string

text \<open>
  The reason a promise of the \<^verbatim>\<open>Contact\<close> service or of the event manager is rejected
  with: any JavaScript value. The editor tests it with \<^verbatim>\<open>instanceof ContactUpdateError\<close>
  and reads its property \<^verbatim>\<open>message\<close>. Reading a property of \<^verbatim>\<open>undefined\<close> or of
  \<^verbatim>\<open>null\<close> throws a \<^verbatim>\<open>TypeError\<close>; every other value is \<open>Reason_value c m\<close>, where
  \<open>c\<close> tells whether it is an instance of \<^verbatim>\<open>ContactUpdateError\<close> and \<open>m\<close> is its
  \<^verbatim>\<open>message\<close>, \<open>None\<close> when that is \<^verbatim>\<open>undefined\<close> (a string, a number, an object
  without message).
\<close>

datatype js_reason = Reason_undefined | Reason_null | Reason_value bool "string option"

text \<open>
  What a promise of the editor itself is rejected with: the \<^verbatim>\<open>TypeError\<close> thrown on
  reading a property of \<^verbatim>\<open>undefined\<close> or \<^verbatim>\<open>null\<close>, or the reason of a rejected promise
  that it adopts.
\<close>

datatype js_thrown = TypeError | Rejected js_reason

text \<open>
  JavaScript numbers, as far as the workflow computes with them: integers (lengths and
  sums of lengths, on which double arithmetic is exact below \<open>2^53\<close>), the two
  infinities and NaN, which a division by zero produces.
\<close>

datatype js_number = Fin int | PosInfinity | NegInfinity | NaN

text \<open>The operator \<^verbatim>\<open>+\<close> on numbers.\<close>

fun js_add :: "js_number \<Rightarrow> js_number \<Rightarrow> js_number" where
  "js_add NaN y = NaN"
| "js_add x NaN = NaN"
| "js_add (Fin a) (Fin b) = Fin (a + b)"
| "js_add PosInfinity NegInfinity = NaN"
| "js_add NegInfinity PosInfinity = NaN"
| "js_add PosInfinity y = PosInfinity"
| "js_add x PosInfinity = PosInfinity"
| "js_add NegInfinity y = NegInfinity"
| "js_add x NegInfinity = NegInfinity"

text \<open>
  \<^verbatim>\<open>Math.floor(a / b)\<close> on integers \<open>a\<close> and \<open>b\<close>: the floor of the quotient, and for
  \<open>b = 0\<close> an infinity of the sign of \<open>a\<close>, or NaN for \<open>0 / 0\<close>.
\<close>

definition Math_floor_div :: "int \<Rightarrow> int \<Rightarrow> js_number" where
  "Math_floor_div a b =
     (if b = 0 then (if a = 0 then NaN else if 0 < a then PosInfinity else NegInfinity)
      else Fin (a div b))"

text \<open>
  One group of a merge request, the argument \<^verbatim>\<open>{ update, remove }\<close> of
  \<^verbatim>\<open>updateAndRemove\<close>: the contact to update and the identifiers to remove.
\<close>

record merge_group =
  grp_update :: contact
  grp_remove :: "string list"

text \<open>
  The object a group operation resolves with. A property that an object literal of the
  source leaves out, or sets to \<^verbatim>\<open>undefined\<close>, is \<open>None\<close>; an element of \<^verbatim>\<open>errors\<close> is
  a message, or \<open>None\<close> for \<^verbatim>\<open>undefined\<close>.
\<close>

record merge_result =
  r_total :: int
  r_updated :: "contact option"
  r_removed :: "string list option"
  r_errors :: "string option list option"

text \<open>The object \<^verbatim>\<open>summarizeMergeResults\<close> returns.\<close>

record summary =
  agg_updated :: "contact list"
  agg_removed :: "string list"
  agg_errors :: "string option list"
  agg_total :: int

text \<open>
  The \<^verbatim>\<open>Contact\<close> service. \<^verbatim>\<open>Contact.update\<close> settles with a value the editor discards;
  \<^verbatim>\<open>Contact.remove\<close> settles with an object of which the editor reads \<^verbatim>\<open>removed\<close> and
  \<^verbatim>\<open>errors\<close>, and of each element of \<^verbatim>\<open>errors\<close> the property \<^verbatim>\<open>Error\<close>.
\<close>

record removal_error =
  removal_Error :: "string option"

record remove_response =
  resp_removed :: "string list option"
  resp_errors :: "removal_error list option"

record contact_store =
  Contact_update :: "contact \<Rightarrow> js_reason + unit"
  Contact_remove :: "string list \<Rightarrow> js_reason + remove_response"

datatype store_call = Update_call contact | Remove_call "string list"

text \<open>
  What the identifier \<^verbatim>\<open>update\<close> denotes where an event payload is built: a contact
  record, or the editor's own function \<^verbatim>\<open>update\<close> (declared in the enclosing scope of
  \<^verbatim>\<open>contactEditor\<close>).
\<close>

datatype payload = Contact_record contact | Editor_update_function

text \<open>The value a promise of the event manager resolves with.\<close>

datatype js_value = Undefined | Summary_object summary

text \<open>The observable effects of a merge, in the order they happen.\<close>

datatype event =
    LoaderModal_activate
  | Track
  | ProgressBar js_number
  | ContactUpdated payload
  | ContactsUpdated
  | ContactsMerged summary
  | EventManager_call

subsection \<open>summarizeMergeResults\<close>

text \<open>The callback of \<^verbatim>\<open>results.reduce\<close>: each property is folded in when it is truthy.\<close>

definition summarize_step :: "merge_result \<Rightarrow> summary \<Rightarrow> summary" where
  "summarize_step result agg =
     (let agg1 = (case r_updated result of
                    Some c \<Rightarrow> agg\<lparr>agg_updated := agg_updated agg @ [c]\<rparr>
                  | None \<Rightarrow> agg);
          agg2 = (case r_removed result of
                    Some ids \<Rightarrow> agg1\<lparr>agg_removed := agg_removed agg1 @ ids\<rparr>
                  | None \<Rightarrow> agg1);
          agg3 = (case r_errors result of
                    Some es \<Rightarrow> agg2\<lparr>agg_errors := agg_errors agg2 @ es\<rparr>
                  | None \<Rightarrow> agg2)
      in if r_total result \<noteq> 0 then agg3\<lparr>agg_total := agg_total agg3 + r_total result\<rparr>
         else agg3)"

definition summarizeMergeResults :: "merge_result list \<Rightarrow> summary" where
  "summarizeMergeResults results =
     fold summarize_step results
       \<lparr>agg_updated = [], agg_removed = [], agg_errors = [], agg_total = 0\<rparr>"

subsection \<open>updateAndRemove\<close>

text \<open>
  The body of the \<^verbatim>\<open>try\<close> block: it completes with the returned object, or abruptly with
  the reason of the first rejected \<^verbatim>\<open>await\<close>. The second component logs the calls made.
\<close>

definition updateAndRemove_try ::
  "contact_store \<Rightarrow> merge_group \<Rightarrow> int \<Rightarrow> (js_reason + merge_result) \<times> store_call list" where
  "updateAndRemove_try store g tot =
     (case Contact_update store (grp_update g) of
        Inl error \<Rightarrow> (Inl error, [Update_call (grp_update g)])
      | Inr _ \<Rightarrow>
          (case Contact_remove store (grp_remove g) of
             Inl error \<Rightarrow>
               (Inl error, [Update_call (grp_update g), Remove_call (grp_remove g)])
           | Inr resp \<Rightarrow>
               (let removed = (case resp_removed resp of None \<Rightarrow> [] | Some ids \<Rightarrow> ids);
                    errors = (case resp_errors resp of None \<Rightarrow> [] | Some es \<Rightarrow> es)
                in (Inr \<lparr>r_total = tot,
                         r_updated = Some (grp_update g),
                         r_removed = Some removed,
                         r_errors = Some (map removal_Error errors)\<rparr>,
                    [Update_call (grp_update g), Remove_call (grp_remove g)]))))"

text \<open>
  The async function: the settlement of the promise it returns, and the calls it made.
  The \<^verbatim>\<open>catch\<close> clause builds an object without the property \<^verbatim>\<open>removed\<close> from the
  reason \<^verbatim>\<open>error\<close>. The test \<^verbatim>\<open>error instanceof ContactUpdateError\<close> is false for
  \<^verbatim>\<open>undefined\<close> and \<^verbatim>\<open>null\<close>; reading \<^verbatim>\<open>error.message\<close> then throws a \<^verbatim>\<open>TypeError\<close>
  inside the \<^verbatim>\<open>catch\<close> clause, and the promise is rejected with it.
\<close>

definition updateAndRemove ::
  "contact_store \<Rightarrow> merge_group \<Rightarrow> (js_thrown + merge_result) \<times> store_call list" where
  "updateAndRemove store g =
     (let tot = 1 + int (length (grp_remove g))
      in case updateAndRemove_try store g tot of
           (Inr result, calls) \<Rightarrow> (Inr result, calls)
         | (Inl error, calls) \<Rightarrow>
             (case error of
                Reason_undefined \<Rightarrow> (Inl TypeError, calls)
              | Reason_null \<Rightarrow> (Inl TypeError, calls)
              | Reason_value is_ContactUpdateError message \<Rightarrow>
                  (Inr \<lparr>r_total = tot,
                        r_updated = (if is_ContactUpdateError then None
                                     else Some (grp_update g)),
                        r_removed = None,
                        r_errors = Some [message]\<rparr>,
                   calls)))"

text \<open>
  Whether the \<^verbatim>\<open>try\<close> block of a group ends with a rejection whose reason is
  \<^verbatim>\<open>undefined\<close> or \<^verbatim>\<open>null\<close>.
\<close>

definition nullish :: "js_reason \<Rightarrow> bool" where
  "nullish error = (error = Reason_undefined \<or> error = Reason_null)"

definition try_fails_nullish :: "contact_store \<Rightarrow> merge_group \<Rightarrow> bool" where
  "try_fails_nullish store g =
     (case fst (updateAndRemove_try store g (1 + int (length (grp_remove g)))) of
        Inl error \<Rightarrow> nullish error
      | Inr result \<Rightarrow> False)"

subsection \<open>mergeProgressAnnouncer\<close>

text \<open>
  The \<^verbatim>\<open>then\<close> callbacks run one at a time, in the order in which the actions settle, on
  the shared variable \<^verbatim>\<open>progress\<close>; a rejected action runs no callback. The function
  takes the settlements in that order and returns the events emitted and the last value
  of \<^verbatim>\<open>progress\<close>.
\<close>

fun announce ::
  "int \<Rightarrow> js_number \<Rightarrow> (js_thrown + merge_result) list \<Rightarrow> event list \<times> js_number" where
  "announce tot progress [] = ([], progress)"
| "announce tot progress (Inl error # rest) = announce tot progress rest"
| "announce tot progress (Inr result # rest) =
     (let progress' = js_add progress (Math_floor_div (r_total result * 100) tot);
          (evs, final) = announce tot progress' rest
      in (ProgressBar progress' # ContactUpdated Editor_update_function # evs, final))"

definition mergeProgressAnnouncer ::
  "int \<Rightarrow> (js_thrown + merge_result) list \<Rightarrow> event list \<times> js_number" where
  "mergeProgressAnnouncer tot settled = announce tot (Fin 0) settled"

subsection \<open>merge\<close>

text \<open>
  \<^verbatim>\<open>Promise.all\<close>, given the promises in the order of the array and in the order in
  which they settle: it is rejected with the reason of the first promise to reject, and
  otherwise resolves with the values in the order of the array.
\<close>

fun first_rejection :: "('e + 'a) list \<Rightarrow> 'e option" where
  "first_rejection [] = None"
| "first_rejection (Inl e # ps) = Some e"
| "first_rejection (Inr v # ps) = first_rejection ps"

fun resolved_values :: "('e + 'a) list \<Rightarrow> 'a list" where
  "resolved_values [] = []"
| "resolved_values (Inl e # ps) = resolved_values ps"
| "resolved_values (Inr v # ps) = v # resolved_values ps"

definition Promise_all :: "('e + 'a) list \<Rightarrow> ('e + 'a) list \<Rightarrow> 'e + 'a list" where
  "Promise_all promises settled =
     (case first_rejection settled of
        Some e \<Rightarrow> Inl e
      | None \<Rightarrow> Inr (resolved_values promises))"

text \<open>
  A callback that returns the promise of \<^verbatim>\<open>eventManager.call()\<close>: the promise of the
  editor adopts its settlement.
\<close>

definition adopt :: "js_reason + 'a \<Rightarrow> js_thrown + 'a" where
  "adopt settlement = (case settlement of Inl reason \<Rightarrow> Inl (Rejected reason) | Inr v \<Rightarrow> Inr v)"

text \<open>The progress values carried by the events of a trace.\<close>

fun progress_values :: "event list \<Rightarrow> js_number list" where
  "progress_values [] = []"
| "progress_values (ProgressBar p # evs) = p # progress_values evs"
| "progress_values (e # evs) = progress_values evs"

text \<open>
  The request object \<^verbatim>\<open>contacts\<close> is the list of its entries in the order of
  \<^verbatim>\<open>Object.keys\<close>. The settlement of \<^verbatim>\<open>eventManager.call()\<close> is the parameter \<open>sync\<close>;
  \<open>time i\<close> is the moment at which the \<open>i\<close>-th action settles, so that the actions settle
  in the order \<open>sort_key time [0..<n]\<close>, which ranges over all orders. The result is the
  settlement of the returned promise and the trace of events. When a group operation is
  rejected, the promise of \<^verbatim>\<open>Promise.all\<close> is rejected and the two callbacks chained on
  it do not run.
\<close>

definition merge_total :: "merge_group list \<Rightarrow> int" where
  "merge_total groups = fold (\<lambda>g sum. sum + int (length (grp_remove g)) + 1) groups 0"

definition merge ::
  "contact_store \<Rightarrow> js_reason + js_value \<Rightarrow> (nat \<Rightarrow> nat) \<Rightarrow> (string \<times> merge_group) list
     \<Rightarrow> (js_thrown + js_value) \<times> event list" where
  "merge store sync time contacts =
     (let groups = map snd contacts;
          actions = map (\<lambda>g. fst (updateAndRemove store g)) groups;
          tot = merge_total groups;
          settled = map (\<lambda>i. actions ! i) (sort_key time [0..<length actions]);
          announced = fst (mergeProgressAnnouncer tot settled)
      in case Promise_all actions settled of
           Inl error \<Rightarrow> (Inl error, [LoaderModal_activate, Track] @ announced)
         | Inr results \<Rightarrow>
             (adopt sync, [LoaderModal_activate, Track] @ announced @
                    [ContactsUpdated, ContactsMerged (summarizeMergeResults results),
                     EventManager_call]))"

subsection \<open>Concrete inputs\<close>

text \<open>Two contacts, three groups and four behaviours of the store.\<close>

definition contact_C1 :: contact where
  "contact_C1 = \<lparr>contact_ID = ''C1'', contact_vCard = ''FN:Ada''\<rparr>"

definition contact_C2 :: contact where
  "contact_C2 = \<lparr>contact_ID = ''C2'', contact_vCard = ''FN:Bob''\<rparr>"

definition group_C1 :: merge_group where
  "group_C1 = \<lparr>grp_update = contact_C1, grp_remove = [''D1'', ''D2'']\<rparr>"

definition group_C2 :: merge_group where
  "group_C2 = \<lparr>grp_update = contact_C2, grp_remove = [''D3'']\<rparr>"

text \<open>A group without duplicates: a pure update.\<close>

definition group_single :: merge_group where
  "group_single = \<lparr>grp_update = contact_C1, grp_remove = []\<rparr>"

text \<open>Every update succeeds and every identifier is removed.\<close>

definition store_ok :: contact_store where
  "store_ok =
     \<lparr>Contact_update = (\<lambda>c. Inr ()),
      Contact_remove = (\<lambda>ids. Inr \<lparr>resp_removed = Some ids, resp_errors = Some []\<rparr>)\<rparr>"

text \<open>Every update is rejected with a \<^verbatim>\<open>ContactUpdateError\<close>.\<close>

definition store_conflict :: contact_store where
  "store_conflict =
     \<lparr>Contact_update = (\<lambda>c. Inl (Reason_value True (Some ''conflict''))),
      Contact_remove = (\<lambda>ids. Inr \<lparr>resp_removed = Some ids, resp_errors = Some []\<rparr>)\<rparr>"

text \<open>Every update succeeds; a removal removes \<open>D1\<close> and reports one error.\<close>

definition store_partial :: contact_store where
  "store_partial =
     \<lparr>Contact_update = (\<lambda>c. Inr ()),
      Contact_remove = (\<lambda>ids. Inr \<lparr>resp_removed = Some [''D1''],
                                    resp_errors = Some [\<lparr>removal_Error = Some ''not found''\<rparr>]\<rparr>)\<rparr>"

text \<open>Every update is rejected with the reason \<^verbatim>\<open>undefined\<close>.\<close>

definition store_undefined :: contact_store where
  "store_undefined =
     \<lparr>Contact_update = (\<lambda>c. Inl Reason_undefined),
      Contact_remove = (\<lambda>ids. Inr \<lparr>resp_removed = Some ids, resp_errors = Some []\<rparr>)\<rparr>"

text \<open>Objects that group operations resolve with.\<close>

definition result_single :: merge_result where
  "result_single =
     \<lparr>r_total = 1, r_updated = Some contact_C1, r_removed = Some [], r_errors = Some []\<rparr>"

definition result_A :: merge_result where
  "result_A =
     \<lparr>r_total = 3, r_updated = Some contact_C1, r_removed = Some [''D1'', ''D2''],
      r_errors = Some []\<rparr>"

definition result_B :: merge_result where
  "result_B =
     \<lparr>r_total = 2, r_updated = Some contact_C2, r_removed = Some [''D3''],
      r_errors = Some [Some ''not found'']\<rparr>"

definition result_C2 :: merge_result where
  "result_C2 =
     \<lparr>r_total = 2, r_updated = Some contact_C2, r_removed = Some [''D3''], r_errors = Some []\<rparr>"

text \<open>Two schedules: the actions settle in the order of submission, or in the reverse order.\<close>

definition time_in_order :: "nat \<Rightarrow> nat" where
  "time_in_order i = i"

definition time_reversed :: "nat \<Rightarrow> nat" where
  "time_reversed i = 10 - i"

text \<open>Requests of one, two and three groups.\<close>

definition request_one :: "(string \<times> merge_group) list" where
  "request_one = [(''g1'', group_single)]"

definition request_two :: "(string \<times> merge_group) list" where
  "request_two = [(''g1'', group_C1), (''g2'', group_C2)]"

definition request_three :: "(string \<times> merge_group) list" where
  "request_three = [(''g1'', group_single), (''g2'', group_single), (''g3'', group_single)]"

section \<open>Properties\<close>

subsection \<open>The group operation\<close>

lemma updateAndRemove_settlement:
  "if try_fails_nullish store g then fst (updateAndRemove store g) = Inl TypeError
   else (\<exists>r. fst (updateAndRemove store g) = Inr r
             \<and> r_total r = 1 + int (length (grp_remove g)))"
  by (auto simp: updateAndRemove_def updateAndRemove_try_def try_fails_nullish_def nullish_def
      Let_def split: sum.split js_reason.split)

lemma updateAndRemove_Inr_total:
  assumes "fst (updateAndRemove store g) = Inr r"
  shows "r_total r = 1 + int (length (grp_remove g))"
  using assms updateAndRemove_settlement [of store g]
  by (auto split: if_splits)




text \<open>
  C7, as stated: when the update is rejected with a \<^verbatim>\<open>ContactUpdateError\<close>, the object
  the group operation resolves with has an empty list of removed identifiers. It has
  none: the object built in the \<^verbatim>\<open>catch\<close> clause has no property \<^verbatim>\<open>removed\<close>, where
  the object built in the \<^verbatim>\<open>try\<close> block has a list.
\<close>

theorem updateAndRemove_conflict_counterexample:
  "Contact_update store_conflict (grp_update group_C1)
     = Inl (Reason_value True (Some ''conflict''))
   \<and> fst (updateAndRemove store_conflict group_C1) =
       Inr \<lparr>r_total = 3, r_updated = None, r_removed = None,
            r_errors = Some [Some ''conflict'']\<rparr>
   \<and> fst (updateAndRemove store_conflict group_C1) \<noteq>
       Inr \<lparr>r_total = 3, r_updated = None, r_removed = Some [],
            r_errors = Some [Some ''conflict'']\<rparr>"
  by (simp add: updateAndRemove_def updateAndRemove_try_def store_conflict_def group_C1_def)

text \<open>
  C7, amended. When the update of the canonical contact is rejected with a
  \<^verbatim>\<open>ContactUpdateError\<close>, the group operation resolves with an object whose \<^verbatim>\<open>updated\<close>
  is undefined, which has no property \<^verbatim>\<open>removed\<close> (absent, not an empty list; it adds
  no removed identifier to a summary), and whose \<^verbatim>\<open>errors\<close> holds the message of the
  error; the only call made to the store is the update, \<^verbatim>\<open>Contact.remove\<close> is not called.
\<close>

theorem updateAndRemove_conflict:
  assumes "Contact_update store (grp_update g) = Inl (Reason_value True m)"
  shows "updateAndRemove store g =
           (Inr \<lparr>r_total = 1 + int (length (grp_remove g)), r_updated = None,
                 r_removed = None, r_errors = Some [m]\<rparr>,
            [Update_call (grp_update g)])
         \<and> agg_removed (summarizeMergeResults
              [\<lparr>r_total = 1 + int (length (grp_remove g)), r_updated = None,
                r_removed = None, r_errors = Some [m]\<rparr>]) = []"
  using assms
  by (simp add: updateAndRemove_def updateAndRemove_try_def Let_def
      summarizeMergeResults_def summarize_step_def)

theorem updateAndRemove_conflict_witness:
  "Contact_update store_conflict (grp_update group_C1)
     = Inl (Reason_value True (Some ''conflict''))
   \<and> updateAndRemove store_conflict group_C1 =
       (Inr \<lparr>r_total = 3, r_updated = None, r_removed = None,
             r_errors = Some [Some ''conflict'']\<rparr>,
        [Update_call contact_C1])"
proof -
  have h: "Contact_update store_conflict (grp_update group_C1)
             = Inl (Reason_value True (Some ''conflict''))"
    by (simp add: store_conflict_def)
  show ?thesis
    using updateAndRemove_conflict [OF h] h by (simp add: group_C1_def)
qed

text \<open>
  C8. When the update succeeds and the removal resolves with some identifiers removed
  and some errors, the group operation resolves with \<^verbatim>\<open>updated\<close> the canonical contact,
  \<^verbatim>\<open>removed\<close> the identifiers the store reported and \<^verbatim>\<open>errors\<close> the message of each
  reported error: the errors of the removal do not undo the update.
\<close>

theorem updateAndRemove_partial_removal:
  assumes "Contact_update store (grp_update g) = Inr u"
    and "Contact_remove store (grp_remove g)
           = Inr \<lparr>resp_removed = Some ids, resp_errors = Some es\<rparr>"
  shows "fst (updateAndRemove store g) =
           Inr \<lparr>r_total = 1 + int (length (grp_remove g)), r_updated = Some (grp_update g),
                r_removed = Some ids, r_errors = Some (map removal_Error es)\<rparr>"
  using assms by (simp add: updateAndRemove_def updateAndRemove_try_def Let_def)

theorem updateAndRemove_partial_removal_witness:
  "Contact_update store_partial (grp_update group_C1) = Inr ()
   \<and> Contact_remove store_partial (grp_remove group_C1)
       = Inr \<lparr>resp_removed = Some [''D1''],
              resp_errors = Some [\<lparr>removal_Error = Some ''not found''\<rparr>]\<rparr>
   \<and> fst (updateAndRemove store_partial group_C1) =
       Inr \<lparr>r_total = 3, r_updated = Some contact_C1, r_removed = Some [''D1''],
            r_errors = Some [Some ''not found'']\<rparr>"
proof -
  have h1: "Contact_update store_partial (grp_update group_C1) = Inr ()"
    by (simp add: store_partial_def)
  have h2: "Contact_remove store_partial (grp_remove group_C1)
       = Inr \<lparr>resp_removed = Some [''D1''],
              resp_errors = Some [\<lparr>removal_Error = Some ''not found''\<rparr>]\<rparr>"
    by (simp add: store_partial_def)
  show ?thesis
    using updateAndRemove_partial_removal [OF h1 h2] h1 h2 by (simp add: group_C1_def)
qed

text \<open>
  C9. Whatever the store does, the object the group operation resolves with has
  \<^verbatim>\<open>total\<close> equal to one plus the number of identifiers to remove; for a group without
  identifiers to remove that is 1. The operation resolves with such an object in every
  case but one: when an awaited call is rejected with the reason \<^verbatim>\<open>undefined\<close> or
  \<^verbatim>\<open>null\<close>, there is no object, the promise is rejected with a \<^verbatim>\<open>TypeError\<close>.
\<close>

theorem updateAndRemove_total:
  "if try_fails_nullish store g then fst (updateAndRemove store g) = Inl TypeError
   else (\<exists>r. fst (updateAndRemove store g) = Inr r
             \<and> r_total r = 1 + int (length (grp_remove g)))"
  by (auto simp: updateAndRemove_def updateAndRemove_try_def try_fails_nullish_def nullish_def
      Let_def split: sum.split js_reason.split)

subsection \<open>The summary\<close>

lemma fold_summarize_step:
  "fold summarize_step rs agg =
     \<lparr>agg_updated = agg_updated agg
        @ concat (map (\<lambda>r. case r_updated r of Some c \<Rightarrow> [c] | None \<Rightarrow> []) rs),
      agg_removed = agg_removed agg
        @ concat (map (\<lambda>r. case r_removed r of Some ids \<Rightarrow> ids | None \<Rightarrow> []) rs),
      agg_errors = agg_errors agg
        @ concat (map (\<lambda>r. case r_errors r of Some es \<Rightarrow> es | None \<Rightarrow> []) rs),
      agg_total = agg_total agg + sum_list (map r_total rs)\<rparr>"
  by (induction rs arbitrary: agg) (auto simp: summarize_step_def Let_def split: option.splits)

lemma summarizeMergeResults_eq:
  "summarizeMergeResults rs =
     \<lparr>agg_updated = concat (map (\<lambda>r. case r_updated r of Some c \<Rightarrow> [c] | None \<Rightarrow> []) rs),
      agg_removed = concat (map (\<lambda>r. case r_removed r of Some ids \<Rightarrow> ids | None \<Rightarrow> []) rs),
      agg_errors = concat (map (\<lambda>r. case r_errors r of Some es \<Rightarrow> es | None \<Rightarrow> []) rs),
      agg_total = sum_list (map r_total rs)\<rparr>"
  by (simp add: summarizeMergeResults_def fold_summarize_step)

lemma mset_concat_map:
  "mset (concat (map f xs)) = (\<Sum>x\<in>#mset xs. mset (f x))"
  by (induction xs) simp_all

lemma sum_list_map_mset:
  fixes f :: "'a \<Rightarrow> int"
  shows "sum_list (map f xs) = (\<Sum>x\<in>#mset xs. f x)"
  by (induction xs) simp_all

text \<open>
  C3, as stated: the summary of a permuted sequence of results is identical to the
  summary of the sequence. It is not: the fold appends in the order of the sequence, so
  exchanging two results that both hold an updated contact exchanges the two contacts in
  \<^verbatim>\<open>updated\<close>.
\<close>

theorem summarizeMergeResults_order_counterexample:
  "mset [result_A, result_B] = mset [result_B, result_A]
   \<and> agg_updated (summarizeMergeResults [result_A, result_B]) = [contact_C1, contact_C2]
   \<and> agg_updated (summarizeMergeResults [result_B, result_A]) = [contact_C2, contact_C1]
   \<and> summarizeMergeResults [result_A, result_B] \<noteq> summarizeMergeResults [result_B, result_A]"
proof -
  have h: "mset [result_A, result_B] = mset [result_B, result_A]"
    by (simp add: add_mset_commute)
  have a: "agg_updated (summarizeMergeResults [result_A, result_B]) = [contact_C1, contact_C2]"
    by (simp add: summarizeMergeResults_def summarize_step_def result_A_def result_B_def)
  have b: "agg_updated (summarizeMergeResults [result_B, result_A]) = [contact_C2, contact_C1]"
    by (simp add: summarizeMergeResults_def summarize_step_def result_A_def result_B_def)
  have "contact_C1 \<noteq> contact_C2"
    by (simp add: contact_C1_def contact_C2_def)
  with a b
  have "summarizeMergeResults [result_A, result_B] \<noteq> summarizeMergeResults [result_B, result_A]"
    by auto
  with h a b show ?thesis by simp
qed

text \<open>
  C3, amended. The summary of a sequence of results lists, in the order of the sequence,
  the updated contact of each result that has one, the removed identifiers of each
  result and the error messages of each result, and its total is the sum of the totals.
  Hence the summaries of a sequence and of a permutation of it have the same total and,
  up to the order of their elements, the same updated contacts, the same removed
  identifiers and the same error messages.
\<close>

theorem summarizeMergeResults_permutation:
  assumes "mset rs = mset rs'"
  shows "summarizeMergeResults rs =
           \<lparr>agg_updated =
              concat (map (\<lambda>r. case r_updated r of Some c \<Rightarrow> [c] | None \<Rightarrow> []) rs),
            agg_removed =
              concat (map (\<lambda>r. case r_removed r of Some ids \<Rightarrow> ids | None \<Rightarrow> []) rs),
            agg_errors =
              concat (map (\<lambda>r. case r_errors r of Some es \<Rightarrow> es | None \<Rightarrow> []) rs),
            agg_total = sum_list (map r_total rs)\<rparr>
       \<and> mset (agg_updated (summarizeMergeResults rs))
           = mset (agg_updated (summarizeMergeResults rs'))
       \<and> mset (agg_removed (summarizeMergeResults rs))
           = mset (agg_removed (summarizeMergeResults rs'))
       \<and> mset (agg_errors (summarizeMergeResults rs))
           = mset (agg_errors (summarizeMergeResults rs'))
       \<and> agg_total (summarizeMergeResults rs) = agg_total (summarizeMergeResults rs')"
proof -
  have "mset (agg_updated (summarizeMergeResults rs))
          = mset (agg_updated (summarizeMergeResults rs'))
      \<and> mset (agg_removed (summarizeMergeResults rs))
          = mset (agg_removed (summarizeMergeResults rs'))
      \<and> mset (agg_errors (summarizeMergeResults rs))
          = mset (agg_errors (summarizeMergeResults rs'))
      \<and> agg_total (summarizeMergeResults rs) = agg_total (summarizeMergeResults rs')"
    using assms by (simp add: summarizeMergeResults_eq mset_concat_map sum_list_map_mset)
  then show ?thesis
    using summarizeMergeResults_eq [of rs] by simp
qed

theorem summarizeMergeResults_permutation_witness:
  "mset [result_A, result_B] = mset [result_B, result_A]
   \<and> summarizeMergeResults [result_A, result_B] =
       \<lparr>agg_updated = [contact_C1, contact_C2], agg_removed = [''D1'', ''D2'', ''D3''],
        agg_errors = [Some ''not found''], agg_total = 5\<rparr>
   \<and> mset (agg_updated (summarizeMergeResults [result_B, result_A]))
       = mset [contact_C1, contact_C2]
   \<and> mset (agg_removed (summarizeMergeResults [result_B, result_A]))
       = mset [''D1'', ''D2'', ''D3'']
   \<and> mset (agg_errors (summarizeMergeResults [result_B, result_A]))
       = mset [Some ''not found'']
   \<and> agg_total (summarizeMergeResults [result_B, result_A]) = 5"
proof -
  have h: "mset [result_A, result_B] = mset [result_B, result_A]"
    by (simp add: add_mset_commute)
  have s: "summarizeMergeResults [result_A, result_B] =
       \<lparr>agg_updated = [contact_C1, contact_C2], agg_removed = [''D1'', ''D2'', ''D3''],
        agg_errors = [Some ''not found''], agg_total = 5\<rparr>"
    using summarizeMergeResults_permutation [OF h]
    by (simp add: result_A_def result_B_def)
  note t = summarizeMergeResults_permutation [OF h]
  have u: "mset (agg_updated (summarizeMergeResults [result_B, result_A]))
             = mset [contact_C1, contact_C2]"
    using t [THEN conjunct2, THEN conjunct1, symmetric] by (simp only: s summary.simps)
  have r: "mset (agg_removed (summarizeMergeResults [result_B, result_A]))
             = mset [''D1'', ''D2'', ''D3'']"
    using t [THEN conjunct2, THEN conjunct2, THEN conjunct1, symmetric]
    by (simp only: s summary.simps)
  have e: "mset (agg_errors (summarizeMergeResults [result_B, result_A]))
             = mset [Some ''not found'']"
    using t [THEN conjunct2, THEN conjunct2, THEN conjunct2, THEN conjunct1, symmetric]
    by (simp only: s summary.simps)
  have n: "agg_total (summarizeMergeResults [result_B, result_A]) = 5"
    using t [THEN conjunct2, THEN conjunct2, THEN conjunct2, THEN conjunct2, symmetric]
    by (simp only: s summary.simps)
  from h s u r e n show ?thesis by blast
qed

subsection \<open>The actions of a merge\<close>

lemma actions_totals:
  "map (\<lambda>g. fst (updateAndRemove store g)) groups = map Inr results
     \<Longrightarrow> map r_total results = map (\<lambda>g. 1 + int (length (grp_remove g))) groups"
proof (induction groups arbitrary: results)
  case Nil
  then show ?case by simp
next
  case (Cons g groups)
  then obtain r rs where results: "results = r # rs"
    by (cases results) auto
  with Cons.prems have r: "fst (updateAndRemove store g) = Inr r"
    and rs: "map (\<lambda>g. fst (updateAndRemove store g)) groups = map Inr rs"
    by simp_all
  show ?case
    using updateAndRemove_Inr_total [OF r] Cons.IH [OF rs] results by simp
qed

lemma first_rejection_Inr: "first_rejection (map Inr rs) = None"
  by (induction rs) simp_all

lemma resolved_values_Inr: "resolved_values (map Inr rs) = rs"
  by (induction rs) simp_all

lemma fold_merge_total:
  "fold (\<lambda>g sum. sum + int (length (grp_remove g)) + 1) groups s
     = s + (\<Sum>g\<leftarrow>groups. 1 + int (length (grp_remove g)))"
  by (induction groups arbitrary: s) simp_all

lemma merge_total_eq:
  "merge_total groups = (\<Sum>g\<leftarrow>groups. 1 + int (length (grp_remove g)))"
  by (simp add: merge_total_def fold_merge_total)

lemma group_totals_nonneg: "0 \<le> (\<Sum>g\<leftarrow>groups. 1 + int (length (grp_remove g)))"
  by (induction groups) simp_all

lemma merge_total_pos: "groups \<noteq> [] \<Longrightarrow> 0 < merge_total groups"
proof (cases groups)
  case Nil
  assume "groups \<noteq> []"
  with Nil show ?thesis by simp
next
  case (Cons g gs)
  have "0 \<le> (\<Sum>g\<leftarrow>gs. 1 + int (length (grp_remove g)))"
    by (rule group_totals_nonneg)
  with Cons show ?thesis by (simp add: merge_total_eq)
qed

lemma mset_settled:
  "mset (map (\<lambda>i. results ! i) (sort_key time [0..<length results])) = mset results"
proof -
  have "mset (map (\<lambda>i. results ! i) (sort_key time [0..<length results]))
      = image_mset (\<lambda>i. results ! i) (mset (sort_key time [0..<length results]))"
    by simp
  also have "\<dots> = image_mset (\<lambda>i. results ! i) (mset [0..<length results])"
    by simp
  also have "\<dots> = mset (map (\<lambda>i. results ! i) [0..<length results])"
    by simp
  also have "\<dots> = mset results"
    by (simp only: map_nth)
  finally show ?thesis .
qed

lemma merge_resolved:
  assumes "map (\<lambda>g. fst (updateAndRemove store g)) (map snd contacts) = map Inr results"
  shows "merge store sync time contacts =
           (adopt sync,
            [LoaderModal_activate, Track]
            @ fst (mergeProgressAnnouncer (merge_total (map snd contacts))
                 (map Inr (map (\<lambda>i. results ! i) (sort_key time [0..<length results]))))
            @ [ContactsUpdated, ContactsMerged (summarizeMergeResults results),
               EventManager_call])"
proof -
  have settled:
    "map (\<lambda>i. map Inr results ! i) (sort_key time [0..<length (map Inr results)])
       = map Inr (map (\<lambda>i. results ! i) (sort_key time [0..<length results]))"
    by simp
  show ?thesis
    unfolding merge_def Let_def assms settled Promise_all_def first_rejection_Inr
      resolved_values_Inr
    by simp
qed

lemma updateAndRemove_single:
  "fst (updateAndRemove store_ok group_single) = Inr result_single"
  by (simp add: updateAndRemove_def updateAndRemove_try_def store_ok_def group_single_def
      result_single_def)

subsection \<open>The progress announced\<close>

lemma progress_values_append:
  "progress_values (xs @ ys) = progress_values xs @ progress_values ys"
  by (induction xs rule: progress_values.induct) simp_all

lemma announce_Inr_fst:
  "fst (announce tot p (Inr r # rest)) =
     ProgressBar (js_add p (Math_floor_div (r_total r * 100) tot))
       # ContactUpdated Editor_update_function
       # fst (announce tot (js_add p (Math_floor_div (r_total r * 100) tot)) rest)"
  by (simp add: Let_def split: prod.split)

lemma announce_Inr_snd:
  "snd (announce tot p (Inr r # rest)) =
     snd (announce tot (js_add p (Math_floor_div (r_total r * 100) tot)) rest)"
  by (simp add: Let_def split: prod.split)

lemma announce_final:
  "tot \<noteq> 0 \<Longrightarrow> snd (announce tot (Fin p) (map Inr rs))
     = Fin (p + (\<Sum>r\<leftarrow>rs. (r_total r * 100) div tot))"
proof (induction rs arbitrary: p)
  case Nil
  show ?case by simp
next
  case (Cons r rs)
  have "snd (announce tot (Fin p) (map Inr (r # rs)))
      = snd (announce tot (Fin (p + (r_total r * 100) div tot)) (map Inr rs))"
    using Cons.prems by (simp only: list.map announce_Inr_snd) (simp add: Math_floor_div_def)
  also have "\<dots> = Fin (p + (r_total r * 100) div tot
                          + (\<Sum>r\<leftarrow>rs. (r_total r * 100) div tot))"
    using Cons.IH [OF Cons.prems] .
  finally show ?case by (simp add: add.assoc)
qed

lemma announce_last:
  "rs \<noteq> [] \<Longrightarrow> last (progress_values (fst (announce tot p (map Inr rs))))
     = snd (announce tot p (map Inr rs))"
proof (induction rs arbitrary: p)
  case Nil
  then show ?case by simp
next
  case (Cons r rs)
  show ?case
  proof (cases "rs = []")
    case True
    then show ?thesis by (simp add: Let_def)
  next
    case False
    have "progress_values (fst (announce tot q (map Inr rs))) \<noteq> []" for q
      using False by (cases rs) (simp_all only: list.map announce_Inr_fst, simp_all)
    with Cons.IH [OF False] show ?thesis
      by (simp only: list.map announce_Inr_fst announce_Inr_snd) simp
  qed
qed

lemma merge_progress_values:
  assumes "map (\<lambda>g. fst (updateAndRemove store g)) (map snd contacts) = map Inr results"
  shows "progress_values (snd (merge store sync time contacts)) =
           progress_values (fst (announce (merge_total (map snd contacts)) (Fin 0)
              (map Inr (map (\<lambda>i. results ! i) (sort_key time [0..<length results])))))"
  by (simp add: merge_resolved [OF assms] progress_values_append mergeProgressAnnouncer_def)

text \<open>The sum of the floors of the shares \<open>a * 100 / T\<close>, for a positive \<open>T\<close>.\<close>

lemma floor_sum_upper:
  fixes T :: int
  assumes "0 < T"
  shows "T * (\<Sum>a\<leftarrow>as. (a * 100) div T) \<le> 100 * sum_list as"
proof (induction as)
  case Nil
  show ?case by simp
next
  case (Cons a as)
  have "a * 100 = T * ((a * 100) div T) + (a * 100) mod T"
    by simp
  moreover have "0 \<le> (a * 100) mod T"
    using assms by simp
  ultimately have "T * ((a * 100) div T) \<le> a * 100"
    by linarith
  with Cons show ?case by (simp add: distrib_left)
qed

lemma floor_sum_lower:
  fixes T :: int
  assumes "0 < T"
  shows "100 * sum_list as
           \<le> T * (\<Sum>a\<leftarrow>as. (a * 100) div T) + (T - 1) * int (length as)"
proof (induction as)
  case Nil
  show ?case by simp
next
  case (Cons a as)
  have "a * 100 = T * ((a * 100) div T) + (a * 100) mod T"
    by simp
  moreover have "(a * 100) mod T \<le> T - 1"
    using assms pos_mod_bound [of T "a * 100"] by simp
  ultimately have "a * 100 \<le> T * ((a * 100) div T) + (T - 1)"
    by linarith
  with Cons show ?case by (simp add: distrib_left algebra_simps)
qed

lemma floor_sum_exact:
  fixes T :: int
  assumes "\<forall>a\<in>set as. T dvd a * 100"
  shows "T * (\<Sum>a\<leftarrow>as. (a * 100) div T) = 100 * sum_list as"
  using assms by (induction as) (simp_all add: distrib_left)

lemma progress_bounds:
  fixes as :: "int list"
  assumes "as \<noteq> []" and "0 < sum_list as"
  defines "S \<equiv> (\<Sum>a\<leftarrow>as. (a * 100) div sum_list as)"
  shows "S \<le> 100" and "100 - int (length as) < S"
    and "(\<forall>a\<in>set as. sum_list as dvd a * 100) \<longrightarrow> S = 100"
proof -
  let ?T = "sum_list as"
  have up: "?T * S \<le> ?T * 100"
    using floor_sum_upper [OF assms(2), of as] by (simp add: S_def mult.commute)
  then show "S \<le> 100"
    using assms(2) by (simp add: mult_le_cancel_left_pos)
  have n: "0 < int (length as)"
    using assms(1) by simp
  have "?T * 100 \<le> ?T * S + (?T - 1) * int (length as)"
    using floor_sum_lower [OF assms(2), of as] by (simp add: S_def mult.commute)
  also have "\<dots> < ?T * S + ?T * int (length as)"
    using n by (simp add: algebra_simps)
  also have "\<dots> = ?T * (S + int (length as))"
    by (simp add: distrib_left)
  finally have "100 < S + int (length as)"
    using assms(2) by (simp add: mult_less_cancel_left_pos)
  then show "100 - int (length as) < S"
    by simp
  show "(\<forall>a\<in>set as. sum_list as dvd a * 100) \<longrightarrow> S = 100"
  proof
    assume "\<forall>a\<in>set as. sum_list as dvd a * 100"
    then have "?T * S = ?T * 100"
      using floor_sum_exact [of as ?T] by (simp add: S_def mult.commute)
    then show "S = 100"
      using assms(2) by simp
  qed
qed

text \<open>
  C2, as stated: in a merge of at least one group, when all groups have resolved the
  cumulative progress is 100. It is not: each group adds the floor of its share, and the
  remainders are lost. Three groups of one contact each add 33 each and end at 99.
\<close>

theorem merge_final_progress_counterexample:
  "request_three \<noteq> []
   \<and> merge_total (map snd request_three) = 3
   \<and> progress_values (snd (merge store_ok (Inr Undefined) time_in_order request_three))
       = [Fin 33, Fin 66, Fin 99]
   \<and> last (progress_values (snd (merge store_ok (Inr Undefined) time_in_order request_three)))
       \<noteq> Fin 100"
proof -
  have t: "merge_total (map snd request_three) = 3"
    by (simp add: merge_total_def group_single_def request_three_def)
  have rs: "map (\<lambda>g. fst (updateAndRemove store_ok g)) (map snd request_three)
              = map Inr [result_single, result_single, result_single]"
    by (simp add: updateAndRemove_single request_three_def)
  have "progress_values (snd (merge store_ok (Inr Undefined) time_in_order request_three))
      = [Fin 33, Fin 66, Fin 99]"
    unfolding merge_progress_values [OF rs] t
    by (simp add: Let_def Math_floor_div_def result_single_def time_in_order_def)
  with t show ?thesis by (simp add: request_three_def)
qed

text \<open>
  C2, amended. In a merge of at least one group in which all group operations resolve,
  whatever the order in which they resolve, the last progress value emitted is the sum
  over the groups of \<open>floor (groupTotal * 100 / totalUnits)\<close>, where \<open>totalUnits\<close> is
  the sum of the groups' totals; it is at most 100 and more than 100 minus the number
  of groups, and it is 100 when \<open>totalUnits\<close> divides \<open>groupTotal * 100\<close> for every
  group.
\<close>

theorem merge_final_progress:
  assumes "contacts \<noteq> []"
    and "map (\<lambda>g. fst (updateAndRemove store g)) (map snd contacts) = map Inr results"
  shows "\<exists>p. last (progress_values (snd (merge store sync time contacts))) = Fin p
       \<and> p = (\<Sum>g\<leftarrow>map snd contacts.
                 ((1 + int (length (grp_remove g))) * 100) div merge_total (map snd contacts))
       \<and> merge_total (map snd contacts)
           = (\<Sum>g\<leftarrow>map snd contacts. 1 + int (length (grp_remove g)))
       \<and> 100 - int (length contacts) < p \<and> p \<le> 100
       \<and> ((\<forall>g\<in>set (map snd contacts).
              merge_total (map snd contacts) dvd (1 + int (length (grp_remove g))) * 100)
            \<longrightarrow> p = 100)"
proof -
  let ?groups = "map snd contacts"
  let ?T = "merge_total ?groups"
  let ?as = "map (\<lambda>g. 1 + int (length (grp_remove g))) ?groups"
  note rs = assms(2)
  have tots: "map r_total results = ?as"
    using actions_totals [OF rs] .
  let ?settled = "map (\<lambda>i. results ! i) (sort_key time [0..<length results])"
  have len: "length results = length contacts"
    using rs by (metis length_map)
  have ne: "?settled \<noteq> []"
    using assms(1) len by (metis length_0_conv length_map length_sort length_upt diff_zero)
  have T: "?T = sum_list ?as"
    by (simp add: merge_total_eq)
  have Tpos: "0 < ?T"
    using assms(1) by (simp add: merge_total_pos)
  let ?S = "\<Sum>a\<leftarrow>?as. (a * 100) div ?T"
  have "last (progress_values (snd (merge store sync time contacts)))
      = snd (announce ?T (Fin 0) (map Inr ?settled))"
    by (simp only: merge_progress_values [OF rs] announce_last [OF ne])
  also have "\<dots> = Fin (\<Sum>r\<leftarrow>?settled. (r_total r * 100) div ?T)"
    using Tpos announce_final [of ?T 0 ?settled] by simp
  also have "(\<Sum>r\<leftarrow>?settled. (r_total r * 100) div ?T)
           = (\<Sum>r\<leftarrow>results. (r_total r * 100) div ?T)"
    by (simp only: sum_list_map_mset mset_settled)
  also have "(\<Sum>r\<leftarrow>results. (r_total r * 100) div ?T)
           = (\<Sum>a\<leftarrow>map r_total results. (a * 100) div ?T)"
    by (simp add: comp_def)
  also have "\<dots> = ?S"
    by (simp only: tots)
  finally have final:
    "last (progress_values (snd (merge store sync time contacts))) = Fin ?S" .
  have asne: "?as \<noteq> []"
    using assms(1) by simp
  have pos: "0 < sum_list ?as"
    using Tpos T by simp
  have b1: "?S \<le> 100"
    using progress_bounds(1) [OF asne pos] T by simp
  have b2: "100 - int (length contacts) < ?S"
    using progress_bounds(2) [OF asne pos] T by simp
  have b3: "(\<forall>g\<in>set ?groups. ?T dvd (1 + int (length (grp_remove g))) * 100)
              \<longrightarrow> ?S = 100"
  proof
    assume "\<forall>g\<in>set ?groups. ?T dvd (1 + int (length (grp_remove g))) * 100"
    then have "\<forall>a\<in>set ?as. sum_list ?as dvd a * 100"
      unfolding T by auto
    with progress_bounds(3) [OF asne pos] show "?S = 100"
      unfolding T by blast
  qed
  have eq: "?S = (\<Sum>g\<leftarrow>?groups. ((1 + int (length (grp_remove g))) * 100) div ?T)"
    by (simp add: comp_def)
  show ?thesis
    using final eq T b1 b2 b3 by (metis (no_types, lifting) merge_total_eq)
qed

theorem merge_final_progress_witness:
  "request_two \<noteq> []
   \<and> map (\<lambda>g. fst (updateAndRemove store_ok g)) (map snd request_two)
       = map Inr [result_A, result_C2]
   \<and> merge_total (map snd request_two) dvd (1 + int (length (grp_remove group_C1))) * 100
   \<and> merge_total (map snd request_two) dvd (1 + int (length (grp_remove group_C2))) * 100
   \<and> last (progress_values (snd (merge store_ok (Inr Undefined) time_reversed request_two)))
       = Fin 100"
proof -
  have h1: "request_two \<noteq> []"
    by (simp add: request_two_def)
  have h0: "map (\<lambda>g. fst (updateAndRemove store_ok g)) (map snd request_two)
              = map Inr [result_A, result_C2]"
    by (simp add: updateAndRemove_def updateAndRemove_try_def store_ok_def request_two_def
        group_C1_def group_C2_def result_A_def result_C2_def)
  have t: "merge_total (map snd request_two) = 5"
    by (simp add: merge_total_def group_C1_def group_C2_def request_two_def)
  have d1: "merge_total (map snd request_two) dvd (1 + int (length (grp_remove group_C1))) * 100"
    unfolding t by (simp add: group_C1_def)
  have d2: "merge_total (map snd request_two) dvd (1 + int (length (grp_remove group_C2))) * 100"
    unfolding t by (simp add: group_C2_def)
  have h2: "\<forall>g\<in>set (map snd request_two).
         merge_total (map snd request_two) dvd (1 + int (length (grp_remove g))) * 100"
    using d1 d2 by (simp add: request_two_def)
  show ?thesis
    using merge_final_progress [OF h1 h0, of "Inr Undefined" time_reversed] h0 h1 h2 d1 d2
    by auto
qed



text \<open>
  C5. Each resolved group emits one \<^verbatim>\<open>contactUpdated\<close> notification, which is meant
  to carry the canonical contact of the group. In the callback the payload is
  built from the identifier \<^verbatim>\<open>update\<close>, which is not bound in
  \<^verbatim>\<open>mergeProgressAnnouncer\<close> and denotes the editor's function \<^verbatim>\<open>update\<close>: for a merge
  of one group whose contact is \<open>contact_C1\<close> the notification carries that function,
  and no notification carries \<open>contact_C1\<close>.
\<close>

theorem merge_contactUpdated_payload:
  "snd (merge store_ok (Inr Undefined) time_in_order request_one) =
     [LoaderModal_activate, Track, ProgressBar (Fin 100),
      ContactUpdated Editor_update_function, ContactsUpdated,
      ContactsMerged \<lparr>agg_updated = [contact_C1], agg_removed = [], agg_errors = [],
                      agg_total = 1\<rparr>,
      EventManager_call]
   \<and> grp_update group_single = contact_C1
   \<and> ContactUpdated (Contact_record contact_C1)
       \<notin> set (snd (merge store_ok (Inr Undefined) time_in_order request_one))"
proof -
  have rs: "map (\<lambda>g. fst (updateAndRemove store_ok g)) (map snd request_one)
              = map Inr [result_single]"
    by (simp add: updateAndRemove_single request_one_def)
  have t: "merge_total (map snd request_one) = 1"
    by (simp add: merge_total_def group_single_def request_one_def)
  have b: "snd (merge store_ok (Inr Undefined) time_in_order request_one) =
     [LoaderModal_activate, Track, ProgressBar (Fin 100),
      ContactUpdated Editor_update_function, ContactsUpdated,
      ContactsMerged \<lparr>agg_updated = [contact_C1], agg_removed = [], agg_errors = [],
                      agg_total = 1\<rparr>,
      EventManager_call]"
    unfolding merge_resolved [OF rs] t
    by (simp add: mergeProgressAnnouncer_def Math_floor_div_def summarizeMergeResults_def
        summarize_step_def result_single_def Let_def)
  show ?thesis unfolding b by (simp add: group_single_def)
qed

subsection \<open>The promise of a merge\<close>

text \<open>
  C1, as stated: when every group operation settles and the final call of the event
  manager succeeds, the promise of \<^verbatim>\<open>merge\<close> resolves with the summary. It does not:
  the last callback returns \<^verbatim>\<open>eventManager.call()\<close>, so the promise resolves with the
  value of that call, \<^verbatim>\<open>undefined\<close> when the call resolves with \<^verbatim>\<open>undefined\<close>. And a
  group operation that settles by being rejected rejects the promise of \<^verbatim>\<open>merge\<close>,
  with no final notification and no call of the event manager.
\<close>

theorem merge_resolution_counterexample:
  "fst (updateAndRemove store_ok group_single) = Inr result_single
   \<and> fst (merge store_ok (Inr Undefined) time_in_order request_one) = Inr Undefined
   \<and> fst (merge store_ok (Inr Undefined) time_in_order request_one)
       \<noteq> Inr (Summary_object (summarizeMergeResults [result_single]))
   \<and> fst (updateAndRemove store_undefined group_single) = Inl TypeError
   \<and> merge store_undefined (Inr Undefined) time_in_order request_one
       = (Inl TypeError, [LoaderModal_activate, Track])"
proof -
  have rs: "map (\<lambda>g. fst (updateAndRemove store_ok g)) (map snd request_one)
              = map Inr [result_single]"
    by (simp add: updateAndRemove_single request_one_def)
  have a: "fst (merge store_ok (Inr Undefined) time_in_order request_one) = Inr Undefined"
    unfolding merge_resolved [OF rs] by (simp add: adopt_def)
  have u: "fst (updateAndRemove store_undefined group_single) = Inl TypeError"
    by (simp add: updateAndRemove_def updateAndRemove_try_def store_undefined_def)
  have b: "merge store_undefined (Inr Undefined) time_in_order request_one
             = (Inl TypeError, [LoaderModal_activate, Track])"
    by (simp add: merge_def Let_def u request_one_def Promise_all_def
        mergeProgressAnnouncer_def)
  from a u b show ?thesis by (simp add: updateAndRemove_single)
qed

text \<open>
  C1, amended. For every merge request in which every group operation resolves and the
  final call of the event manager resolves with a value, the promise of \<^verbatim>\<open>merge\<close>
  resolves with that value; the summary of the results of all groups, folded in the
  order of the request, is carried by the \<^verbatim>\<open>contactsMerged\<close> notification, emitted
  after \<^verbatim>\<open>contactsUpdated\<close> and before the call of the event manager.
\<close>

theorem merge_resolves_with_sync_value:
  assumes "map (\<lambda>g. fst (updateAndRemove store g)) (map snd contacts) = map Inr results"
  shows "\<exists>evs. merge store (Inr v) time contacts =
           (Inr v, evs @ [ContactsUpdated, ContactsMerged (summarizeMergeResults results),
                           EventManager_call])"
proof -
  have "merge store (Inr v) time contacts =
          (Inr v,
           ([LoaderModal_activate, Track]
            @ fst (mergeProgressAnnouncer (merge_total (map snd contacts))
                 (map Inr (map (\<lambda>i. results ! i) (sort_key time [0..<length results])))))
           @ [ContactsUpdated, ContactsMerged (summarizeMergeResults results),
              EventManager_call])"
    using merge_resolved [OF assms, of "Inr v" time] by (simp add: adopt_def)
  then show ?thesis by blast
qed

theorem merge_resolves_with_sync_value_witness:
  "map (\<lambda>g. fst (updateAndRemove store_ok g)) (map snd request_two)
     = map Inr [result_A, result_C2]
   \<and> fst (merge store_ok (Inr Undefined) time_reversed request_two) = Inr Undefined
   \<and> ContactsMerged
        \<lparr>agg_updated = [contact_C1, contact_C2], agg_removed = [''D1'', ''D2'', ''D3''],
         agg_errors = [], agg_total = 5\<rparr>
       \<in> set (snd (merge store_ok (Inr Undefined) time_reversed request_two))"
proof -
  have h: "map (\<lambda>g. fst (updateAndRemove store_ok g)) (map snd request_two)
             = map Inr [result_A, result_C2]"
    by (simp add: updateAndRemove_def updateAndRemove_try_def store_ok_def request_two_def
        group_C1_def group_C2_def result_A_def result_C2_def)
  have s: "summarizeMergeResults [result_A, result_C2] =
        \<lparr>agg_updated = [contact_C1, contact_C2], agg_removed = [''D1'', ''D2'', ''D3''],
         agg_errors = [], agg_total = 5\<rparr>"
    by (simp add: summarizeMergeResults_def summarize_step_def result_A_def result_C2_def)
  from merge_resolves_with_sync_value [OF h, of Undefined time_reversed] obtain evs where
    "merge store_ok (Inr Undefined) time_reversed request_two =
       (Inr Undefined, evs @ [ContactsUpdated,
          ContactsMerged (summarizeMergeResults [result_A, result_C2]), EventManager_call])"
    by blast
  with h s show ?thesis by simp
qed

text \<open>
  C10. A merge of a request without groups emits no progress, emits
  \<^verbatim>\<open>contactsUpdated\<close> and \<^verbatim>\<open>contactsMerged\<close>, the latter with the empty summary of
  total 0, calls the event manager, and resolves when that call resolves.
\<close>

theorem merge_empty_request:
  "merge store (Inr v) time [] =
     (Inr v,
      [LoaderModal_activate, Track, ContactsUpdated,
       ContactsMerged \<lparr>agg_updated = [], agg_removed = [], agg_errors = [], agg_total = 0\<rparr>,
       EventManager_call])"
  by (simp add: merge_def merge_total_def mergeProgressAnnouncer_def summarizeMergeResults_def
      Promise_all_def adopt_def)

end
